theory Spec2Isabelle
  imports Main "HOL-Library.Word"
begin

section \<open>The attachment manager of the chat client\<close>

text \<open>
  A shallow embedding of \<^verbatim>\<open>src/frontend/src/scripts/attachments.ts\<close>.

  The singleton \<^verbatim>\<open>AttachmentManager\<close> becomes a record that every operation takes and
  returns. A call of \<^verbatim>\<open>alert\<close> becomes an event of the returned trace, and so does a call
  of the image compressor. The two external collaborators of \<^verbatim>\<open>addAttachment\<close>, the
  content sniffer \<^verbatim>\<open>fileTypeFromBlob\<close> and \<^verbatim>\<open>ImageCompressor.compressAttachment\<close>, are
  parameters; a compressor that throws returns \<open>Inl\<close>. The answer of \<^verbatim>\<open>prompt\<close> is a
  parameter of the two modal functions (\<open>None\<close> when the user cancels).

  Byte sizes are natural numbers (a \<^verbatim>\<open>File\<close>'s size is the length of its content), and
  the rendering of the preview and the console output are left out.

  \<open>addAttachment\<close>, \<open>exec\<close> and \<open>run\<close> describe operations that run one at a time, each to
  its end before the next one starts. The image path of the source suspends at the
  \<^verbatim>\<open>await\<close> of the compressor, between its checks and its push, and the source does not
  keep a second call from starting meanwhile: \<open>beginImage\<close> and \<open>finishImage\<close> are the two
  halves of the image path, for calls that overlap.
\<close>

subsection \<open>Strings and arrays of the host language\<close>

type_synonym byte = "8 word"

definition upper_letters :: string where
  "upper_letters = ''ABCDEFGHIJKLMNOPQRSTUVWXYZ''"

definition lower_letters :: string where
  "lower_letters = ''abcdefghijklmnopqrstuvwxyz''"

definition lowerChar :: "char \<Rightarrow> char" where
  "lowerChar c = (case map_of (zip upper_letters lower_letters) c of Some d \<Rightarrow> d | None \<Rightarrow> c)"

text \<open>
  \<^verbatim>\<open>s.toLowerCase()\<close> on the letters A to Z; other characters stay. The host also maps
  letters outside ASCII, none of them to a string of the extension allow-list, so that
  membership in that list is decided as in the source.
\<close>

definition toLowerCase :: "string \<Rightarrow> string" where
  "toLowerCase s = map lowerChar s"

text \<open>\<^verbatim>\<open>s.split(sep)\<close> for a one-character separator: never an empty array.\<close>

fun split :: "char \<Rightarrow> string \<Rightarrow> string list" where
  "split sep [] = [[]]"
| "split sep (c # cs) =
     (if c = sep then [] # split sep cs
      else (c # hd (split sep cs)) # tl (split sep cs))"

text \<open>\<^verbatim>\<open>s.indexOf(p) === 0\<close> and \<^verbatim>\<open>s.startsWith(p)\<close>.\<close>

definition startsWith :: "string \<Rightarrow> string \<Rightarrow> bool" where
  "startsWith s p = (take (length p) s = p)"

text \<open>\<^verbatim>\<open>s.includes(p)\<close>: \<open>p\<close> starts at some position of \<open>s\<close>.\<close>

fun str_includes :: "string \<Rightarrow> string \<Rightarrow> bool" where
  "str_includes [] p = (p = [])"
| "str_includes (c # cs) p = (startsWith (c # cs) p \<or> str_includes cs p)"

text \<open>
  \<^verbatim>\<open>xs.splice(start, deleteCount)\<close> for integer arguments, as the array it leaves behind:
  a negative start counts from the end and is clamped at 0, a start past the end is
  clamped at the length, and the count is clamped to what is left.
\<close>

definition splice :: "int \<Rightarrow> int \<Rightarrow> 'a list \<Rightarrow> 'a list" where
  "splice start deleteCount xs =
     (let len = int (length xs);
          actualStart = (if start < 0 then max (len + start) 0 else min start len);
          actualDeleteCount = min (max deleteCount 0) (len - actualStart)
      in take (nat actualStart) xs @ drop (nat (actualStart + actualDeleteCount)) xs)"

subsection \<open>Data model\<close>

record blob =
  blob_bytes :: "byte list"
  blob_type :: string

record file_obj =
  file_name :: string
  file_type :: string
  file_bytes :: "byte list"

definition file_size :: "file_obj \<Rightarrow> nat" where
  "file_size f = length (file_bytes f)"

definition blob_size :: "blob \<Rightarrow> nat" where
  "blob_size b = length (blob_bytes b)"

datatype att_type = Image | TextFile | Youtube | Wikipedia

text \<open>The interface \<^verbatim>\<open>Attachment\<close>: every field but the type is optional.\<close>

record attachment =
  att_type :: att_type
  att_file :: "file_obj option"
  att_url :: "string option"
  att_name :: "string option"
  textContent :: "string option"
  extension :: "string option"
  sizeBytes :: "nat option"

record options =
  quality :: int
  maxWidthOrHeight :: int

record manager =
  attachments :: "attachment list"
  useSearch :: bool
  useDatabase :: bool
  compressImages :: bool
  compressionOptions :: options

text \<open>What \<^verbatim>\<open>fileTypeFromBlob\<close> returns when it recognises a format.\<close>

record file_type_result =
  ft_ext :: string
  ft_mime :: string

type_synonym sniffer = "file_obj \<Rightarrow> file_type_result option"

type_synonym compressor = "file_obj \<Rightarrow> options \<Rightarrow> string + blob"

text \<open>One reason per \<^verbatim>\<open>alert\<close> of the source, in the order of the source.\<close>

datatype reason =
    UnsupportedFileType
  | BinaryContentDetected
  | BinaryMimeType
  | FileTooLarge
  | TotalFileSizeExceeded
  | UnsupportedImageFormat
  | ImageTooLarge
  | MaxImagesReached
  | InvalidYoutubeUrl
  | InvalidWikipediaUrl

datatype event = Alert reason | CompressorInvoked

text \<open>The first parameter of \<^verbatim>\<open>addAttachment\<close>: \<^verbatim>\<open>'image' | 'file'\<close>.\<close>

datatype upload_type = ImageUpload | FileUpload

subsection \<open>Constants\<close>

definition MAX_FILE_SIZE_BYTES :: nat where
  "MAX_FILE_SIZE_BYTES = 10 * 1024 * 1024"

definition MAX_TOTAL_FILE_SIZE_BYTES :: nat where
  "MAX_TOTAL_FILE_SIZE_BYTES = 10 * 1024 * 1024"

definition MAX_SIZE_BYTES :: nat where
  "MAX_SIZE_BYTES = 10 * 1024 * 1024"

definition MAX_IMAGES :: nat where
  "MAX_IMAGES = 8"

definition SUPPORTED_TEXT_EXTENSIONS :: "string list" where
  "SUPPORTED_TEXT_EXTENSIONS =
     [''js'', ''jsx'', ''ts'', ''tsx'', ''py'', ''java'', ''rb'', ''php'', ''cs'', ''go'',
      ''rs'', ''c'', ''cpp'', ''h'', ''hpp'',
      ''sh'', ''bash'',
      ''html'', ''css'', ''scss'', ''sass'', ''vue'', ''svelte'',
      ''json'', ''yaml'', ''yml'', ''toml'', ''ini'', ''env'',
      ''csv'', ''xml'', ''sql'',
      ''md'', ''mdx'', ''txt'', ''log'']"

definition SUPPORTED_TYPES :: "string list" where
  "SUPPORTED_TYPES = [''image/jpeg'', ''image/png'', ''image/webp'', ''image/gif'']"

definition SAFE_TEXT_MIME_TYPES :: "string list" where
  "SAFE_TEXT_MIME_TYPES =
     [''text/plain'', ''text/html'', ''text/css'', ''text/javascript'', ''text/csv'',
      ''text/xml'', ''text/markdown'', ''application/json'', ''application/xml'',
      ''application/x-yaml'', ''text/x-yaml'', ''application/javascript'',
      ''application/x-sh'']"

subsection \<open>Helpers of the manager\<close>

definition getFileExtension :: "string \<Rightarrow> string" where
  "getFileExtension filename =
     (let parts = split (CHR ''.'') filename
      in if length parts > 1 then toLowerCase (last parts) else '''')"

definition isSupportedTextFile :: "string \<Rightarrow> bool" where
  "isSupportedTextFile ext = (ext \<in> set SUPPORTED_TEXT_EXTENSIONS)"

definition isTextMimeType :: "string \<Rightarrow> bool" where
  "isTextMimeType mimeType =
     (if startsWith mimeType ''text/'' then True
      else mimeType \<in> set SAFE_TEXT_MIME_TYPES)"

subsection \<open>Operations\<close>

definition push :: "attachment \<Rightarrow> manager \<Rightarrow> manager" where
  "push a m = m\<lparr>attachments := attachments m @ [a]\<rparr>"

text \<open>The three object literals the source pushes.\<close>

definition fileAttachment :: "att_type \<Rightarrow> file_obj \<Rightarrow> string \<Rightarrow> attachment" where
  "fileAttachment ty f n =
     \<lparr>att_type = ty, att_file = Some f, att_url = None, att_name = Some n,
      textContent = None, extension = None, sizeBytes = None\<rparr>"

definition linkAttachment :: "att_type \<Rightarrow> string \<Rightarrow> attachment" where
  "linkAttachment ty url =
     \<lparr>att_type = ty, att_file = None, att_url = Some url, att_name = None,
      textContent = None, extension = None, sizeBytes = None\<rparr>"

text \<open>
  \<^verbatim>\<open>this.attachments.filter(a => a.type === 'file')
        .reduce((sum, a) => sum + (a.file?.size || 0), 0)\<close>
\<close>

definition currentTotalSize :: "attachment list \<Rightarrow> nat" where
  "currentTotalSize atts =
     foldl (\<lambda>sum a. sum + (case att_file a of None \<Rightarrow> 0 | Some g \<Rightarrow> file_size g)) 0
       (filter (\<lambda>a. att_type a = TextFile) atts)"

definition currentImageCount :: "attachment list \<Rightarrow> nat" where
  "currentImageCount atts = length (filter (\<lambda>att. att_type att = Image) atts)"

text \<open>
  The compression block of \<^verbatim>\<open>addAttachment\<close>: the file that is stored, with the events of
  the block. An exception of the compressor is caught and the original file is kept.
\<close>

definition processFile ::
  "compressor \<Rightarrow> upload_type \<Rightarrow> file_obj \<Rightarrow> manager \<Rightarrow> file_obj \<times> event list" where
  "processFile compress ty f m =
     (if ty = ImageUpload \<and> compressImages m \<and> startsWith (file_type f) ''image/'' then
        (case compress f (compressionOptions m) of
           Inr compressedBlob \<Rightarrow>
             (if blob_size compressedBlob < file_size f
              then (\<lparr>file_name = file_name f, file_type = blob_type compressedBlob,
                      file_bytes = blob_bytes compressedBlob\<rparr>, [CompressorInvoked])
              else (f, [CompressorInvoked]))
         | Inl err \<Rightarrow> (f, [CompressorInvoked]))
      else (f, []))"

definition addAttachment ::
  "sniffer \<Rightarrow> compressor \<Rightarrow> upload_type \<Rightarrow> file_obj \<Rightarrow> manager \<Rightarrow> manager \<times> event list" where
  "addAttachment sniff compress ty f m =
     (if ty = FileUpload then
        (if \<not> isSupportedTextFile (getFileExtension (file_name f))
           then (m, [Alert UnsupportedFileType])
         else if sniff f \<noteq> None
           then (m, [Alert BinaryContentDetected])
         else if file_type f \<noteq> [] \<and> \<not> isTextMimeType (file_type f)
           then (m, [Alert BinaryMimeType])
         else if file_size f > MAX_FILE_SIZE_BYTES
           then (m, [Alert FileTooLarge])
         else if currentTotalSize (attachments m) + file_size f > MAX_TOTAL_FILE_SIZE_BYTES
           then (m, [Alert TotalFileSizeExceeded])
         else (push (fileAttachment TextFile f (file_name f)) m, []))
      else if file_type f \<notin> set SUPPORTED_TYPES
        then (m, [Alert UnsupportedImageFormat])
      else if file_size f > MAX_SIZE_BYTES
        then (m, [Alert ImageTooLarge])
      else if currentImageCount (attachments m) \<ge> MAX_IMAGES
        then (m, [Alert MaxImagesReached])
      else
        (let (processedFile, evs) = processFile compress ty f m
         in (push (fileAttachment Image processedFile (file_name f)) m, evs)))"

text \<open>
  The image path in the two halves that the \<^verbatim>\<open>await\<close> of the compressor makes of it.
  \<open>beginImage\<close> runs against the manager at the time of the call: the three checks, and
  the compression block with the options of that time. \<open>finishImage\<close> runs when the
  compressor has returned, against the manager of that later time: the push. (With
  compression switched off nothing is awaited and the halves run together.)
\<close>

definition beginImage ::
  "compressor \<Rightarrow> file_obj \<Rightarrow> manager \<Rightarrow> reason + (file_obj \<times> event list)" where
  "beginImage compress f m =
     (if file_type f \<notin> set SUPPORTED_TYPES then Inl UnsupportedImageFormat
      else if file_size f > MAX_SIZE_BYTES then Inl ImageTooLarge
      else if currentImageCount (attachments m) \<ge> MAX_IMAGES then Inl MaxImagesReached
      else Inr (processFile compress ImageUpload f m))"

definition finishImage :: "file_obj \<Rightarrow> file_obj \<Rightarrow> manager \<Rightarrow> manager" where
  "finishImage f processedFile m = push (fileAttachment Image processedFile (file_name f)) m"

definition addYoutubeLink :: "string \<Rightarrow> manager \<Rightarrow> manager" where
  "addYoutubeLink url m = push (linkAttachment Youtube url) m"

definition addWikipediaLink :: "string \<Rightarrow> manager \<Rightarrow> manager" where
  "addWikipediaLink url m = push (linkAttachment Wikipedia url) m"

definition removeAttachment :: "int \<Rightarrow> manager \<Rightarrow> manager" where
  "removeAttachment index m = m\<lparr>attachments := splice index 1 (attachments m)\<rparr>"

definition clearAttachments :: "manager \<Rightarrow> manager" where
  "clearAttachments m = m\<lparr>attachments := []\<rparr>"

text \<open>
  The modal functions. A \<^verbatim>\<open>null\<close> answer and the empty string are both falsy, so
  neither branch of the source runs for them.
\<close>

definition showYoutubeModal :: "string option \<Rightarrow> manager \<Rightarrow> manager \<times> event list" where
  "showYoutubeModal answer m =
     (case answer of
        None \<Rightarrow> (m, [])
      | Some url \<Rightarrow>
          (if url \<noteq> [] \<and> (str_includes url ''youtube.com'' \<or> str_includes url ''youtu.be'')
             then (addYoutubeLink url m, [])
           else if url \<noteq> [] then (m, [Alert InvalidYoutubeUrl])
           else (m, [])))"

definition showWikipediaModal :: "string option \<Rightarrow> manager \<Rightarrow> manager \<times> event list" where
  "showWikipediaModal answer m =
     (case answer of
        None \<Rightarrow> (m, [])
      | Some url \<Rightarrow>
          (if url \<noteq> [] \<and> str_includes url ''wikipedia.org''
             then (addWikipediaLink url m, [])
           else if url \<noteq> [] then (m, [Alert InvalidWikipediaUrl])
           else (m, [])))"

subsection \<open>The handlers that \<^verbatim>\<open>init\<close> installs\<close>

text \<open>
  The change handler of the image input adds the selected files one after the other and
  skips a file whose declared type does not start with \<^verbatim>\<open>image/\<close>; the handler of the file
  input adds every selected file. Each call is awaited before the next one.
\<close>

fun imageInputChange ::
  "sniffer \<Rightarrow> compressor \<Rightarrow> file_obj list \<Rightarrow> manager \<Rightarrow> manager \<times> event list" where
  "imageInputChange sniff compress [] m = (m, [])"
| "imageInputChange sniff compress (f # fs) m =
     (if startsWith (file_type f) ''image/'' then
        (let (m1, e1) = addAttachment sniff compress ImageUpload f m;
             (m2, e2) = imageInputChange sniff compress fs m1
         in (m2, e1 @ e2))
      else imageInputChange sniff compress fs m)"

fun fileInputChange ::
  "sniffer \<Rightarrow> compressor \<Rightarrow> file_obj list \<Rightarrow> manager \<Rightarrow> manager \<times> event list" where
  "fileInputChange sniff compress [] m = (m, [])"
| "fileInputChange sniff compress (f # fs) m =
     (let (m1, e1) = addAttachment sniff compress FileUpload f m;
          (m2, e2) = fileInputChange sniff compress fs m1
      in (m2, e1 @ e2))"

text \<open>Every way in which the host changes the manager, as one command type.\<close>

datatype command =
    AddAttachment upload_type file_obj
  | ImageInputChange "file_obj list"
  | FileInputChange "file_obj list"
  | AddYoutubeLink string
  | AddWikipediaLink string
  | ShowYoutubeModal "string option"
  | ShowWikipediaModal "string option"
  | RemoveAttachment int
  | ClearAttachments
  | SetCompressImages bool
  | SetQuality int
  | SetMaxWidthOrHeight int

fun exec :: "sniffer \<Rightarrow> compressor \<Rightarrow> command \<Rightarrow> manager \<Rightarrow> manager" where
  "exec sniff compress (AddAttachment ty f) m = fst (addAttachment sniff compress ty f m)"
| "exec sniff compress (ImageInputChange fs) m = fst (imageInputChange sniff compress fs m)"
| "exec sniff compress (FileInputChange fs) m = fst (fileInputChange sniff compress fs m)"
| "exec sniff compress (AddYoutubeLink url) m = addYoutubeLink url m"
| "exec sniff compress (AddWikipediaLink url) m = addWikipediaLink url m"
| "exec sniff compress (ShowYoutubeModal answer) m = fst (showYoutubeModal answer m)"
| "exec sniff compress (ShowWikipediaModal answer) m = fst (showWikipediaModal answer m)"
| "exec sniff compress (RemoveAttachment index) m = removeAttachment index m"
| "exec sniff compress ClearAttachments m = clearAttachments m"
| "exec sniff compress (SetCompressImages b) m = m\<lparr>compressImages := b\<rparr>"
| "exec sniff compress (SetQuality q) m =
     m\<lparr>compressionOptions := (compressionOptions m)\<lparr>quality := q\<rparr>\<rparr>"
| "exec sniff compress (SetMaxWidthOrHeight d) m =
     m\<lparr>compressionOptions := (compressionOptions m)\<lparr>maxWidthOrHeight := d\<rparr>\<rparr>"

fun run :: "sniffer \<Rightarrow> compressor \<Rightarrow> command list \<Rightarrow> manager \<Rightarrow> manager" where
  "run sniff compress [] m = m"
| "run sniff compress (c # cs) m = run sniff compress cs (exec sniff compress c m)"

text \<open>The manager as the module creates it.\<close>

definition initial :: manager where
  "initial =
     \<lparr>attachments = [], useSearch = False, useDatabase = False, compressImages = True,
      compressionOptions = \<lparr>quality = 85, maxWidthOrHeight = 2048\<rparr>\<rparr>"

subsection \<open>Vocabulary of the properties\<close>

text \<open>
  Well-formed UTF-8 (Unicode, table 3-7): what a decoder that reports errors accepts.
\<close>

definition cont :: "byte \<Rightarrow> bool" where
  "cont b = (0x80 \<le> b \<and> b \<le> 0xBF)"

fun utf8 :: "byte list \<Rightarrow> bool" where
  "utf8 [] = True"
| "utf8 (b # bs) =
     (if b \<le> 0x7F then utf8 bs
      else if 0xC2 \<le> b \<and> b \<le> 0xDF then
        (case bs of c1 # r \<Rightarrow> cont c1 \<and> utf8 r | _ \<Rightarrow> False)
      else if 0xE0 \<le> b \<and> b \<le> 0xEF then
        (case bs of
           c1 # c2 # r \<Rightarrow>
             (if b = 0xE0 then 0xA0 \<le> c1 \<and> c1 \<le> 0xBF
              else if b = 0xED then 0x80 \<le> c1 \<and> c1 \<le> 0x9F
              else cont c1) \<and> cont c2 \<and> utf8 r
         | _ \<Rightarrow> False)
      else if 0xF0 \<le> b \<and> b \<le> 0xF4 then
        (case bs of
           c1 # c2 # c3 # r \<Rightarrow>
             (if b = 0xF0 then 0x90 \<le> c1 \<and> c1 \<le> 0xBF
              else if b = 0xF4 then 0x80 \<le> c1 \<and> c1 \<le> 0x8F
              else cont c1) \<and> cont c2 \<and> cont c3 \<and> utf8 r
         | _ \<Rightarrow> False)
      else False)"

text \<open>The reasons that the specification files under a size ceiling.\<close>

definition sizeReason :: "reason \<Rightarrow> bool" where
  "sizeReason r = (r = FileTooLarge \<or> r = TotalFileSizeExceeded \<or> r = ImageTooLarge)"

text \<open>The checks of the file path that come before the size checks.\<close>

definition passesFileChecks :: "sniffer \<Rightarrow> file_obj \<Rightarrow> bool" where
  "passesFileChecks sniff f =
     (isSupportedTextFile (getFileExtension (file_name f)) \<and> sniff f = None \<and>
      (file_type f = [] \<or> isTextMimeType (file_type f)))"

text \<open>The fields of a record that no object literal of the source sets.\<close>

definition derivedFieldsUnset :: "attachment \<Rightarrow> bool" where
  "derivedFieldsUnset a = (textContent a = None \<and> extension a = None \<and> sizeBytes a = None)"

text \<open>A list without its element at position \<open>i\<close>.\<close>

definition deleteAt :: "nat \<Rightarrow> 'a list \<Rightarrow> 'a list" where
  "deleteAt i xs = take i xs @ drop (Suc i) xs"

subsection \<open>Sample collaborators and inputs\<close>

text \<open>
  A sniffer that knows the signatures of PNG and PDF, and three compressors: one that
  halves its input, one that returns as many zero bytes as its input has bytes, under
  another type, and one that throws. The theorems hold
  for every sniffer and compressor; these serve in the examples.
\<close>

definition sniffMagic :: sniffer where
  "sniffMagic f =
     (if take 4 (file_bytes f) = [0x89, 0x50, 0x4E, 0x47]
        then Some \<lparr>ft_ext = ''png'', ft_mime = ''image/png''\<rparr>
      else if take 4 (file_bytes f) = [0x25, 0x50, 0x44, 0x46]
        then Some \<lparr>ft_ext = ''pdf'', ft_mime = ''application/pdf''\<rparr>
      else None)"

definition compressHalf :: compressor where
  "compressHalf f opts =
     Inr \<lparr>blob_bytes = take (length (file_bytes f) div 2) (file_bytes f),
          blob_type = ''image/jpeg''\<rparr>"

definition compressZeros :: compressor where
  "compressZeros f opts =
     Inr \<lparr>blob_bytes = replicate (length (file_bytes f)) 0, blob_type = ''image/webp''\<rparr>"

definition compressThrows :: compressor where
  "compressThrows f opts = Inl ''canvas error''"

definition textFile :: "string \<Rightarrow> byte list \<Rightarrow> file_obj" where
  "textFile n bs = \<lparr>file_name = n, file_type = ''text/plain'', file_bytes = bs\<rparr>"

definition pngFile :: "string \<Rightarrow> byte list \<Rightarrow> file_obj" where
  "pngFile n bs = \<lparr>file_name = n, file_type = ''image/png'', file_bytes = bs\<rparr>"

definition pngMagic :: "byte list" where
  "pngMagic = [0x89, 0x50, 0x4E, 0x47, 0x0D, 0x0A, 0x1A, 0x0A]"

definition withAttachments :: "attachment list \<Rightarrow> manager" where
  "withAttachments atts = initial\<lparr>attachments := atts\<rparr>"

text \<open>A text file of 3 MiB.\<close>

definition mib3 :: "string \<Rightarrow> file_obj" where
  "mib3 n = textFile n (replicate 3145728 0x61)"

text \<open>A Store that holds seven images.\<close>

definition sevenImages :: manager where
  "sevenImages =
     withAttachments (replicate 7 (fileAttachment Image (pngFile ''p.png'' pngMagic) ''p.png''))"

text \<open>A Store that holds eight images.\<close>

definition eightImages :: manager where
  "eightImages =
     withAttachments (replicate 8 (fileAttachment Image (pngFile ''p.png'' pngMagic) ''p.png''))"

section \<open>Properties\<close>

subsection \<open>The string helpers compute what their names say\<close>

lemma startsWith_iff: "startsWith s p \<longleftrightarrow> (\<exists>b. s = p @ b)"
  unfolding startsWith_def
  by (metis append_eq_conv_conj append_take_drop_id)

lemma str_includes_iff: "str_includes s p \<longleftrightarrow> (\<exists>a b. s = a @ p @ b)"
proof (induction s)
  case Nil
  then show ?case by auto
next
  case (Cons c cs)
  show ?case
  proof
    assume "str_includes (c # cs) p"
    then consider "startsWith (c # cs) p" | "str_includes cs p" by auto
    then show "\<exists>a b. c # cs = a @ p @ b"
    proof cases
      case 1
      then obtain b where "c # cs = p @ b" using startsWith_iff by blast
      then have "c # cs = [] @ p @ b" by simp
      then show ?thesis by blast
    next
      case 2
      then obtain a b where "cs = a @ p @ b" using Cons.IH by blast
      then have "c # cs = (c # a) @ p @ b" by simp
      then show ?thesis by blast
    qed
  next
    assume "\<exists>a b. c # cs = a @ p @ b"
    then obtain a b where ab: "c # cs = a @ p @ b" by blast
    show "str_includes (c # cs) p"
    proof (cases a)
      case Nil
      with ab have "startsWith (c # cs) p" using startsWith_iff by auto
      then show ?thesis by simp
    next
      case (Cons x a')
      with ab have "cs = a' @ p @ b" by simp
      then have "str_includes cs p" using Cons.IH by blast
      then show ?thesis by simp
    qed
  qed
qed

lemma str_includes_nonempty: "str_includes url p \<Longrightarrow> p \<noteq> [] \<Longrightarrow> url \<noteq> []"
  by (cases url) auto

lemma split_not_Nil: "split sep s \<noteq> []"
  by (induction s) auto

lemma split_no_sep: "sep \<notin> set s \<Longrightarrow> split sep s = [s]"
  by (induction s) auto

lemma split_sep_last:
  "sep \<notin> set e \<Longrightarrow>
   length (split sep (b @ sep # e)) > 1 \<and> last (split sep (b @ sep # e)) = e"
proof (induction b)
  case Nil
  then show ?case by (simp add: split_no_sep)
next
  case (Cons c b)
  then have ih: "length (split sep (b @ sep # e)) > 1" "last (split sep (b @ sep # e)) = e"
    by simp_all
  then obtain p q ps where s: "split sep (b @ sep # e) = p # q # ps"
    by (cases "split sep (b @ sep # e)"; cases "tl (split sep (b @ sep # e))") auto
  with ih show ?case by auto
qed

text \<open>
  The extension is the text after the last dot of the name, in lower case, and the empty
  string for a name without a dot.
\<close>

lemma getFileExtension_no_dot:
  "CHR ''.'' \<notin> set n \<Longrightarrow> getFileExtension n = ''''"
  by (simp add: getFileExtension_def split_no_sep)

lemma getFileExtension_last_dot:
  "CHR ''.'' \<notin> set e \<Longrightarrow> getFileExtension (b @ CHR ''.'' # e) = toLowerCase e"
  using split_sep_last [of "CHR ''.''" e b]
  by (simp add: getFileExtension_def Let_def)

subsection \<open>Links\<close>

text \<open>
  Claim C10. For every string \<open>url\<close>, a direct call of \<^verbatim>\<open>addYoutubeLink\<close> or of
  \<^verbatim>\<open>addWikipediaLink\<close> appends a link attachment with that URL, whatever the URL is:
  neither looks at the URL. The substring check is made by the modal functions, which
  call them only when it succeeds.
\<close>

theorem C10_links_unconditional:
  "addYoutubeLink url m = m\<lparr>attachments := attachments m @
       [\<lparr>att_type = Youtube, att_file = None, att_url = Some url, att_name = None,
         textContent = None, extension = None, sizeBytes = None\<rparr>]\<rparr> \<and>
   addWikipediaLink url m = m\<lparr>attachments := attachments m @
       [\<lparr>att_type = Wikipedia, att_file = None, att_url = Some url, att_name = None,
         textContent = None, extension = None, sizeBytes = None\<rparr>]\<rparr> \<and>
   fst (showYoutubeModal (Some url) m) =
     (if url \<noteq> [] \<and> (str_includes url ''youtube.com'' \<or> str_includes url ''youtu.be'')
      then addYoutubeLink url m else m) \<and>
   fst (showWikipediaModal (Some url) m) =
     (if url \<noteq> [] \<and> str_includes url ''wikipedia.org'' then addWikipediaLink url m else m)"
  by (simp add: addYoutubeLink_def addWikipediaLink_def push_def linkAttachment_def
      showYoutubeModal_def showWikipediaModal_def)

text \<open>A URL of another site, and a string that is no URL at all, are appended.\<close>

theorem C10_links_unconditional_witness:
  "attachments (addYoutubeLink ''https://vimeo.com/abc123'' initial) =
     [linkAttachment Youtube ''https://vimeo.com/abc123''] \<and>
   attachments (addWikipediaLink ''not a link'' initial) =
     [linkAttachment Wikipedia ''not a link''] \<and>
   fst (showYoutubeModal (Some ''https://vimeo.com/abc123'') initial) = initial"
  using C10_links_unconditional [of "''https://vimeo.com/abc123''" initial]
    C10_links_unconditional [of "''not a link''" initial]
  by (simp add: initial_def linkAttachment_def startsWith_def)

text \<open>
  Claim C8, as amended. For the URL that the user submits in the prompt: the youtube modal
  commits a youtube link exactly when the URL contains \<^verbatim>\<open>youtube.com\<close> or \<^verbatim>\<open>youtu.be\<close>,
  and the wikipedia modal commits a wikipedia link exactly when it contains
  \<^verbatim>\<open>wikipedia.org\<close>. Otherwise nothing is appended, and the invalid-link alert is raised
  when the URL is not empty: an empty URL is ignored without an alert.
\<close>

theorem C8_modal_links:
  "showYoutubeModal (Some url) m =
     (if str_includes url ''youtube.com'' \<or> str_includes url ''youtu.be''
        then (push (linkAttachment Youtube url) m, [])
      else if url = [] then (m, [])
      else (m, [Alert InvalidYoutubeUrl])) \<and>
   showWikipediaModal (Some url) m =
     (if str_includes url ''wikipedia.org''
        then (push (linkAttachment Wikipedia url) m, [])
      else if url = [] then (m, [])
      else (m, [Alert InvalidWikipediaUrl]))"
proof -
  have y: "str_includes url ''youtube.com'' \<Longrightarrow> url \<noteq> []"
    using str_includes_nonempty [of url "''youtube.com''"] by simp
  have b: "str_includes url ''youtu.be'' \<Longrightarrow> url \<noteq> []"
    using str_includes_nonempty [of url "''youtu.be''"] by simp
  have w: "str_includes url ''wikipedia.org'' \<Longrightarrow> url \<noteq> []"
    using str_includes_nonempty [of url "''wikipedia.org''"] by simp
  show ?thesis
    using y b w
    by (auto simp add: showYoutubeModal_def showWikipediaModal_def addYoutubeLink_def
        addWikipediaLink_def)
qed

text \<open>The short youtube URL is accepted as a youtube link and refused as a wikipedia link.\<close>

theorem C8_modal_links_witness:
  "showYoutubeModal (Some ''https://youtu.be/abc123'') initial =
     (push (linkAttachment Youtube ''https://youtu.be/abc123'') initial, []) \<and>
   showWikipediaModal (Some ''https://youtu.be/abc123'') initial =
     (initial, [Alert InvalidWikipediaUrl])"
  using C8_modal_links [of "''https://youtu.be/abc123''" initial]
  by (simp add: startsWith_def)

text \<open>
  Claim C8 as stated fails at the empty URL: it contains neither fragment, and the
  submission ends without the invalid-link alert.
\<close>

theorem C8_empty_url_counterexample:
  "\<not> str_includes '''' ''youtube.com'' \<and> \<not> str_includes '''' ''youtu.be'' \<and>
   showYoutubeModal (Some '''') initial = (initial, []) \<and>
   showYoutubeModal (Some '''') initial \<noteq> (initial, [Alert InvalidYoutubeUrl])"
  by (simp add: showYoutubeModal_def)

subsection \<open>Removal by position\<close>

lemma splice_one:
  "splice i 1 xs =
     (let n = int (length xs) in
      if 0 \<le> i \<and> i < n then deleteAt (nat i) xs
      else if n \<le> i then xs
      else deleteAt (nat (max (n + i) 0)) xs)"
proof -
  let ?n = "int (length xs)"
  consider (inside) "0 \<le> i" "i < ?n" | (above) "?n \<le> i" | (below) "i < 0" "i < ?n"
    by linarith
  then show ?thesis
  proof cases
    case inside
    then have "nat (i + 1) = Suc (nat i)" by linarith
    with inside show ?thesis
      by (simp add: splice_def deleteAt_def Let_def min_def max_def)
  next
    case above
    then show ?thesis
      by (simp add: splice_def Let_def min_def max_def)
  next
    case below
    show ?thesis
    proof (cases "xs = []")
      case True
      then show ?thesis by (simp add: splice_def deleteAt_def Let_def)
    next
      case False
      then have pos: "0 < ?n" by simp
      define k where "k = max (?n + i) 0"
      have k: "0 \<le> k" "k < ?n" using below pos by (auto simp add: k_def)
      then have "min (max 1 0) (?n - k) = 1" by linarith
      moreover have "nat (k + 1) = Suc (nat k)" using k by linarith
      moreover have "(if i < 0 then max (?n + i) 0 else min i ?n) = k"
        using below by (simp add: k_def)
      ultimately have "splice i 1 xs = deleteAt (nat k) xs"
        by (simp add: splice_def deleteAt_def Let_def)
      then show ?thesis
        using below by (simp add: k_def Let_def)
    qed
  qed
qed

lemma deleteAt_length: "i < length xs \<Longrightarrow> length (deleteAt i xs) = length xs - 1"
  by (auto simp add: deleteAt_def)

lemma deleteAt_nth:
  "i < length xs \<Longrightarrow> j < length xs - 1 \<Longrightarrow>
   deleteAt i xs ! j = xs ! (if j < i then j else Suc j)"
  by (auto simp add: deleteAt_def nth_append min_def)

text \<open>
  Claim C7, as amended. For a Store of size \<open>n\<close> and an integer position \<open>i\<close>: if
  \<open>0 \<le> i < n\<close>, \<^verbatim>\<open>removeAttachment(i)\<close> leaves the \<open>n - 1\<close> other elements in their order,
  with element \<open>i\<close> deleted; if \<open>i \<ge> n\<close>, the Store is unchanged; if \<open>i\<close> is negative, the
  position counts from the end (\<open>n + i\<close>, or 0 when that is negative) and the element
  there is deleted, so that only an empty Store is left unchanged. No other field of the
  manager changes.
\<close>

theorem C7_removeAttachment:
  "removeAttachment i m =
     m\<lparr>attachments :=
         (let n = int (length (attachments m)) in
          if 0 \<le> i \<and> i < n then deleteAt (nat i) (attachments m)
          else if n \<le> i then attachments m
          else deleteAt (nat (max (n + i) 0)) (attachments m))\<rparr> \<and>
   (0 \<le> i \<and> i < int (length (attachments m)) \<longrightarrow>
      length (attachments (removeAttachment i m)) = length (attachments m) - 1 \<and>
      (\<forall>j < length (attachments m) - 1.
         attachments (removeAttachment i m) ! j =
         attachments m ! (if j < nat i then j else Suc j)))"
proof -
  have eq: "attachments (removeAttachment i m) = splice i 1 (attachments m)"
    by (simp add: removeAttachment_def)
  have "0 \<le> i \<and> i < int (length (attachments m)) \<Longrightarrow>
        attachments (removeAttachment i m) = deleteAt (nat i) (attachments m)"
    by (simp add: eq splice_one)
  moreover have "0 \<le> i \<and> i < int (length (attachments m)) \<Longrightarrow>
        nat i < length (attachments m)"
    by linarith
  ultimately show ?thesis
    by (simp add: removeAttachment_def splice_one deleteAt_length deleteAt_nth)
qed

text \<open>Position 1 of three links, a position past the end, and the position \<open>-3\<close>.\<close>

theorem C7_removeAttachment_witness:
  "attachments (removeAttachment 1 (withAttachments
      [linkAttachment Youtube ''a'', linkAttachment Wikipedia ''b'', linkAttachment Youtube ''c''])) =
     [linkAttachment Youtube ''a'', linkAttachment Youtube ''c''] \<and>
   attachments (removeAttachment 3 (withAttachments
      [linkAttachment Youtube ''a'', linkAttachment Wikipedia ''b'', linkAttachment Youtube ''c''])) =
     [linkAttachment Youtube ''a'', linkAttachment Wikipedia ''b'', linkAttachment Youtube ''c''] \<and>
   attachments (removeAttachment (- 3) (withAttachments
      [linkAttachment Youtube ''a'', linkAttachment Wikipedia ''b'', linkAttachment Youtube ''c''])) =
     [linkAttachment Wikipedia ''b'', linkAttachment Youtube ''c'']"
  using
    C7_removeAttachment [of 1 "withAttachments
      [linkAttachment Youtube ''a'', linkAttachment Wikipedia ''b'', linkAttachment Youtube ''c'']"]
    C7_removeAttachment [of 3 "withAttachments
      [linkAttachment Youtube ''a'', linkAttachment Wikipedia ''b'', linkAttachment Youtube ''c'']"]
    C7_removeAttachment [of "- 3" "withAttachments
      [linkAttachment Youtube ''a'', linkAttachment Wikipedia ''b'', linkAttachment Youtube ''c'']"]
  by (simp add: withAttachments_def initial_def deleteAt_def)

text \<open>
  Claim C7 as stated fails at a negative position: \<^verbatim>\<open>removeAttachment(-1)\<close> on a Store of
  two attachments deletes the last one.
\<close>

theorem C7_negative_index_counterexample:
  "attachments (removeAttachment (- 1) (withAttachments
      [linkAttachment Youtube ''a'', linkAttachment Wikipedia ''b''])) =
     [linkAttachment Youtube ''a''] \<and>
   removeAttachment (- 1) (withAttachments
      [linkAttachment Youtube ''a'', linkAttachment Wikipedia ''b'']) \<noteq>
   withAttachments [linkAttachment Youtube ''a'', linkAttachment Wikipedia ''b'']"
  by (simp add: removeAttachment_def splice_def withAttachments_def initial_def)

subsection \<open>Adding a file or an image\<close>

lemma supported_type_is_image:
  "t \<in> set SUPPORTED_TYPES \<Longrightarrow> startsWith t ''image/''"
  by (auto simp add: SUPPORTED_TYPES_def startsWith_def)

text \<open>The file path of \<^verbatim>\<open>addAttachment\<close>: one alert and the same manager, or a push.\<close>

lemma addAttachment_file:
  "addAttachment sniff compress FileUpload f m =
     (if \<not> isSupportedTextFile (getFileExtension (file_name f))
        then (m, [Alert UnsupportedFileType])
      else if sniff f \<noteq> None then (m, [Alert BinaryContentDetected])
      else if file_type f \<noteq> [] \<and> \<not> isTextMimeType (file_type f)
        then (m, [Alert BinaryMimeType])
      else if file_size f > MAX_FILE_SIZE_BYTES then (m, [Alert FileTooLarge])
      else if currentTotalSize (attachments m) + file_size f > MAX_TOTAL_FILE_SIZE_BYTES
        then (m, [Alert TotalFileSizeExceeded])
      else (push (fileAttachment TextFile f (file_name f)) m, []))"
  by (simp add: addAttachment_def)

lemma addAttachment_image:
  "addAttachment sniff compress ImageUpload f m =
     (if file_type f \<notin> set SUPPORTED_TYPES then (m, [Alert UnsupportedImageFormat])
      else if file_size f > MAX_SIZE_BYTES then (m, [Alert ImageTooLarge])
      else if currentImageCount (attachments m) \<ge> MAX_IMAGES
        then (m, [Alert MaxImagesReached])
      else (push (fileAttachment Image (fst (processFile compress ImageUpload f m))
                    (file_name f)) m,
            snd (processFile compress ImageUpload f m)))"
  by (simp add: addAttachment_def split_beta)

lemma push_neq: "attachments (push a m) \<noteq> attachments m"
  by (simp add: push_def)

text \<open>
  Claim C6. For every image candidate that passes validation (one of the four supported
  types, at most 10 MiB, fewer than 8 images in the Store) while compression is enabled,
  the compressor is invoked and the candidate is committed without any alert: one record
  of type image is appended to the Store, under the candidate's name. Its file has the
  bytes and the type of the compressor's output when that output is strictly smaller
  than the original, and is the original file otherwise: when the output is as large or
  larger, and when the compressor throws.
\<close>

theorem C6_compress_or_original:
  assumes "file_type f \<in> {''image/jpeg'', ''image/png'', ''image/webp'', ''image/gif''}"
    and "length (file_bytes f) \<le> 10 * 1024 * 1024"
    and "length (filter (\<lambda>a. att_type a = Image) (attachments m)) < 8"
    and "compressImages m"
  shows "addAttachment sniff compress ImageUpload f m =
     (m\<lparr>attachments := attachments m @
         [\<lparr>att_type = Image,
           att_file = Some
             (case compress f (compressionOptions m) of
                Inr b \<Rightarrow>
                  if length (blob_bytes b) < length (file_bytes f)
                  then \<lparr>file_name = file_name f, file_type = blob_type b,
                         file_bytes = blob_bytes b\<rparr>
                  else f
              | Inl err \<Rightarrow> f),
           att_url = None, att_name = Some (file_name f), textContent = None,
           extension = None, sizeBytes = None\<rparr>]\<rparr>,
      [CompressorInvoked])"
proof -
  have t: "file_type f \<in> set SUPPORTED_TYPES"
    using assms(1) by (simp add: SUPPORTED_TYPES_def)
  then have i: "startsWith (file_type f) ''image/''"
    by (rule supported_type_is_image)
  have s: "\<not> file_size f > MAX_SIZE_BYTES"
    using assms(2) by (simp add: file_size_def MAX_SIZE_BYTES_def)
  have c: "\<not> currentImageCount (attachments m) \<ge> MAX_IMAGES"
    using assms(3) by (simp add: currentImageCount_def MAX_IMAGES_def)
  show ?thesis
    using t i s c assms(4)
    by (simp add: addAttachment_image processFile_def push_def fileAttachment_def
        file_size_def blob_size_def split: sum.splits)
qed

text \<open>
  A PNG of eight bytes under the three sample compressors: the four bytes of the output
  are stored, as a JPEG, when the compressor halves; the eight bytes of the original are
  stored, as a PNG, when it returns eight other bytes of another type, and when it
  throws.
\<close>

theorem C6_compress_or_original_witness:
  "addAttachment sniffMagic compressHalf ImageUpload (pngFile ''p.png'' pngMagic) initial =
     (initial\<lparr>attachments :=
         [\<lparr>att_type = Image,
           att_file = Some \<lparr>file_name = ''p.png'', file_type = ''image/jpeg'',
                             file_bytes = [0x89, 0x50, 0x4E, 0x47]\<rparr>,
           att_url = None, att_name = Some ''p.png'', textContent = None,
           extension = None, sizeBytes = None\<rparr>]\<rparr>,
      [CompressorInvoked]) \<and>
   addAttachment sniffMagic compressZeros ImageUpload (pngFile ''p.png'' pngMagic) initial =
     (initial\<lparr>attachments :=
         [\<lparr>att_type = Image,
           att_file = Some \<lparr>file_name = ''p.png'', file_type = ''image/png'',
                             file_bytes = [0x89, 0x50, 0x4E, 0x47, 0x0D, 0x0A, 0x1A, 0x0A]\<rparr>,
           att_url = None, att_name = Some ''p.png'', textContent = None,
           extension = None, sizeBytes = None\<rparr>]\<rparr>,
      [CompressorInvoked]) \<and>
   addAttachment sniffMagic compressThrows ImageUpload (pngFile ''p.png'' pngMagic) initial =
     (initial\<lparr>attachments :=
         [\<lparr>att_type = Image,
           att_file = Some \<lparr>file_name = ''p.png'', file_type = ''image/png'',
                             file_bytes = [0x89, 0x50, 0x4E, 0x47, 0x0D, 0x0A, 0x1A, 0x0A]\<rparr>,
           att_url = None, att_name = Some ''p.png'', textContent = None,
           extension = None, sizeBytes = None\<rparr>]\<rparr>,
      [CompressorInvoked]) \<and>
   blob_bytes (projr (compressZeros (pngFile ''p.png'' pngMagic) (compressionOptions initial))) =
     [0, 0, 0, 0, 0, 0, 0, 0]"
proof -
  let ?f = "pngFile ''p.png'' pngMagic"
  have h1: "file_type ?f \<in> {''image/jpeg'', ''image/png'', ''image/webp'', ''image/gif''}"
    by (simp add: pngFile_def)
  have h2: "length (file_bytes ?f) \<le> 10 * 1024 * 1024"
    by (simp add: pngFile_def pngMagic_def)
  have h3: "length (filter (\<lambda>a. att_type a = Image) (attachments initial)) < 8"
    by (simp add: initial_def)
  have h4: "compressImages initial"
    by (simp add: initial_def)
  have z: "replicate 8 (0::byte) = [0, 0, 0, 0, 0, 0, 0, 0]"
    by (simp add: numeral_eq_Suc)
  show ?thesis
    using C6_compress_or_original [OF h1 h2 h3 h4, of sniffMagic compressHalf]
      C6_compress_or_original [OF h1 h2 h3 h4, of sniffMagic compressZeros]
      C6_compress_or_original [OF h1 h2 h3 h4, of sniffMagic compressThrows]
    by (simp add: compressHalf_def compressZeros_def compressThrows_def pngFile_def
        pngMagic_def initial_def z)
qed

subsection \<open>Evaluating the examples\<close>

lemma replicate_4: "replicate 4 x = [x, x, x, x]"
  by (simp add: numeral_eq_Suc)

lemmas helper_defs =
  getFileExtension_def toLowerCase_def lowerChar_def upper_letters_def lower_letters_def
  isSupportedTextFile_def SUPPORTED_TEXT_EXTENSIONS_def isTextMimeType_def startsWith_def
  SAFE_TEXT_MIME_TYPES_def SUPPORTED_TYPES_def file_size_def blob_size_def
  MAX_FILE_SIZE_BYTES_def MAX_TOTAL_FILE_SIZE_BYTES_def MAX_SIZE_BYTES_def MAX_IMAGES_def

lemmas sample_defs =
  sniffMagic_def textFile_def pngFile_def pngMagic_def initial_def withAttachments_def
  replicate_4

subsection \<open>The file path\<close>

text \<open>
  Claim C1, as amended. For every file candidate committed to the Store as a text-file
  attachment: the lowercased extension of its name is in the allow-list, the sniffer
  recognised no format in its content, its declared MIME type is empty or a text type,
  and the Store gains one record that holds the candidate's file as it is. That the
  content decodes as UTF-8 is not checked.
\<close>

theorem C1_committed_file_passed_checks:
  assumes "addAttachment sniff compress FileUpload f m = (m', evs)"
    and "attachments m' \<noteq> attachments m"
  shows "attachments m' = attachments m @ [fileAttachment TextFile f (file_name f)] \<and>
         evs = [] \<and>
         isSupportedTextFile (getFileExtension (file_name f)) \<and>
         sniff f = None \<and>
         (file_type f = [] \<or> isTextMimeType (file_type f))"
  using assms
  by (auto simp add: addAttachment_file push_def split: if_splits)

text \<open>A three-byte text file named \<^verbatim>\<open>notes.txt\<close> is committed, and it passed the checks.\<close>

theorem C1_committed_file_passed_checks_witness:
  "attachments (fst (addAttachment sniffMagic compressThrows FileUpload
       (textFile ''notes.txt'' [0x61, 0x62, 0x63]) initial)) =
     [fileAttachment TextFile (textFile ''notes.txt'' [0x61, 0x62, 0x63]) ''notes.txt''] \<and>
   isSupportedTextFile (getFileExtension ''notes.txt'') \<and>
   sniffMagic (textFile ''notes.txt'' [0x61, 0x62, 0x63]) = None \<and>
   isTextMimeType ''text/plain''"
proof -
  let ?f = "textFile ''notes.txt'' [0x61, 0x62, 0x63]"
  let ?r = "addAttachment sniffMagic compressThrows FileUpload ?f initial"
  have run: "?r = (fst ?r, snd ?r)"
    by simp
  have grown: "attachments (fst ?r) \<noteq> attachments initial"
    by (simp add: addAttachment_file push_def currentTotalSize_def helper_defs sample_defs)
  show ?thesis
    using C1_committed_file_passed_checks [OF run grown]
    by (simp add: textFile_def initial_def)
qed

text \<open>
  Claim C1 as stated fails: a file named \<^verbatim>\<open>notes.txt\<close> with declared type
  \<^verbatim>\<open>text/plain\<close> whose last byte is a lone continuation byte is committed, and its
  content is not well-formed UTF-8.
\<close>

theorem C1_not_utf8_counterexample:
  "addAttachment sniffMagic compressThrows FileUpload
       (textFile ''notes.txt'' [0x68, 0x69, 0x80]) initial =
     (push (fileAttachment TextFile (textFile ''notes.txt'' [0x68, 0x69, 0x80])
        ''notes.txt'') initial, []) \<and>
   \<not> utf8 (file_bytes (textFile ''notes.txt'' [0x68, 0x69, 0x80]))"
  by (simp add: addAttachment_file helper_defs sample_defs currentTotalSize_def cont_def)

text \<open>
  Claim C2, as amended. For every file candidate in which the sniffer recognises a
  format, \<^verbatim>\<open>addAttachment\<close> rejects the candidate and leaves the manager as it was,
  whatever the extension. The reason is the binary-content one when the extension is in
  the allow-list; otherwise the extension check, which comes first, has already rejected
  the candidate as an unsupported file type.
\<close>

theorem C2_sniffed_format_rejected:
  assumes "sniff f = Some d"
  shows "addAttachment sniff compress FileUpload f m =
     (m, [Alert (if isSupportedTextFile (getFileExtension (file_name f))
                 then BinaryContentDetected else UnsupportedFileType)])"
  using assms by (simp add: addAttachment_file)

text \<open>PNG bytes in a file named \<^verbatim>\<open>notes.txt\<close>: rejected for their content.\<close>

theorem C2_sniffed_format_rejected_witness:
  "sniffMagic (textFile ''notes.txt'' pngMagic) =
     Some \<lparr>ft_ext = ''png'', ft_mime = ''image/png''\<rparr> \<and>
   addAttachment sniffMagic compressThrows FileUpload (textFile ''notes.txt'' pngMagic)
       initial =
     (initial, [Alert BinaryContentDetected])"
proof -
  have h: "sniffMagic (textFile ''notes.txt'' pngMagic) =
      Some \<lparr>ft_ext = ''png'', ft_mime = ''image/png''\<rparr>"
    by (simp add: sample_defs)
  show ?thesis
    using h C2_sniffed_format_rejected
      [where sniff = sniffMagic and f = "textFile ''notes.txt'' pngMagic" and
        compress = compressThrows and m = initial, OF h]
    by (simp add: helper_defs textFile_def)
qed

text \<open>
  Claim C2 as stated fails when the extension is not in the allow-list: PNG bytes in a
  file named \<^verbatim>\<open>photo.png\<close> are rejected as an unsupported file type, not for their
  content.
\<close>

theorem C2_extension_first_counterexample:
  "sniffMagic (pngFile ''photo.png'' pngMagic) =
     Some \<lparr>ft_ext = ''png'', ft_mime = ''image/png''\<rparr> \<and>
   addAttachment sniffMagic compressThrows FileUpload (pngFile ''photo.png'' pngMagic)
       initial =
     (initial, [Alert UnsupportedFileType])"
  by (simp add: addAttachment_file helper_defs sample_defs)

text \<open>
  Claim C5, as amended. For every image or file candidate whose original size exceeds
  10 MiB, \<^verbatim>\<open>addAttachment\<close> ends with one alert, the manager as it was and the compressor
  never invoked, whatever the compressor would return. The alert is the size one when the
  candidate passes the checks that come before the size check (a supported image type;
  for a file a supported extension, no sniffed format and a text MIME type); otherwise it
  is the alert of the first of those checks that fails.
\<close>

theorem C5_oversized_rejected:
  assumes "file_size f > 10 * 1024 * 1024"
  shows "addAttachment sniff compress ImageUpload f m =
           (m, [Alert (if file_type f \<in> set SUPPORTED_TYPES then ImageTooLarge
                       else UnsupportedImageFormat)]) \<and>
         addAttachment sniff compress FileUpload f m =
           (m, [Alert (if passesFileChecks sniff f then FileTooLarge
                       else if \<not> isSupportedTextFile (getFileExtension (file_name f))
                         then UnsupportedFileType
                       else if sniff f \<noteq> None then BinaryContentDetected
                       else BinaryMimeType)])"
  using assms
  by (auto simp add: addAttachment_file addAttachment_image passesFileChecks_def
      MAX_FILE_SIZE_BYTES_def MAX_SIZE_BYTES_def)

text \<open>A PNG and a text file of 10 MiB and one byte: both get the size alert.\<close>

theorem C5_oversized_rejected_witness:
  "addAttachment sniffMagic compressHalf ImageUpload
       (pngFile ''big.png'' (replicate 10485761 0)) initial =
     (initial, [Alert ImageTooLarge]) \<and>
   addAttachment sniffMagic compressHalf FileUpload
       (textFile ''big.txt'' (replicate 10485761 0x61)) initial =
     (initial, [Alert FileTooLarge])"
proof -
  have h1: "file_size (pngFile ''big.png'' (replicate 10485761 0)) > 10 * 1024 * 1024"
    by (simp add: file_size_def pngFile_def)
  have h2: "file_size (textFile ''big.txt'' (replicate 10485761 0x61)) > 10 * 1024 * 1024"
    by (simp add: file_size_def textFile_def)
  have p: "passesFileChecks sniffMagic (textFile ''big.txt'' (replicate 10485761 0x61))"
    by (simp add: passesFileChecks_def helper_defs sample_defs)
  have t: "file_type (pngFile ''big.png'' (replicate 10485761 0)) \<in> set SUPPORTED_TYPES"
    by (simp add: pngFile_def SUPPORTED_TYPES_def)
  show ?thesis
    using C5_oversized_rejected [OF h1, of sniffMagic compressHalf initial]
      C5_oversized_rejected [OF h2, of sniffMagic compressHalf initial] p t
    by simp
qed

text \<open>
  Claim C5 as stated fails for a candidate that an earlier check rejects: an image of
  11 MiB with the declared type \<^verbatim>\<open>image/bmp\<close> is rejected for its format, which is no
  size reason.
\<close>

theorem C5_format_first_counterexample:
  "file_size \<lparr>file_name = ''scan.bmp'', file_type = ''image/bmp'',
              file_bytes = replicate 11534336 0\<rparr> > 10 * 1024 * 1024 \<and>
   addAttachment sniffMagic compressHalf ImageUpload
       \<lparr>file_name = ''scan.bmp'', file_type = ''image/bmp'',
        file_bytes = replicate 11534336 0\<rparr> initial =
     (initial, [Alert UnsupportedImageFormat]) \<and>
   \<not> sizeReason UnsupportedImageFormat"
  by (simp add: addAttachment_image file_size_def SUPPORTED_TYPES_def sizeReason_def)

subsection \<open>The image ceiling\<close>

lemma currentImageCount_append:
  "currentImageCount (xs @ [a]) = currentImageCount xs + (if att_type a = Image then 1 else 0)"
  by (simp add: currentImageCount_def)

lemma currentImageCount_Nil: "currentImageCount [] = 0"
  by (simp add: currentImageCount_def)

lemma currentImageCount_take_drop:
  "a \<le> b \<Longrightarrow> currentImageCount (take a xs @ drop b xs) \<le> currentImageCount xs"
proof -
  assume ab: "a \<le> b"
  let ?P = "\<lambda>att. att_type att = Image"
  have "drop b xs = drop (b - a) (drop a xs)" using ab by simp
  then have "length (filter ?P (drop b xs)) \<le> length (filter ?P (drop a xs))"
    by (metis append_take_drop_id filter_append length_append le_add2)
  moreover have "length (filter ?P xs) =
      length (filter ?P (take a xs)) + length (filter ?P (drop a xs))"
    by (metis append_take_drop_id filter_append length_append)
  ultimately show ?thesis by (simp add: currentImageCount_def)
qed

lemma currentImageCount_splice:
  "currentImageCount (splice i 1 xs) \<le> currentImageCount xs"
proof -
  let ?len = "int (length xs)"
  let ?s = "if i < 0 then max (?len + i) 0 else min i ?len"
  have "?s \<le> ?len" by auto
  then have "0 \<le> min (max 1 0) (?len - ?s)" by auto
  then have "nat ?s \<le> nat (?s + min (max 1 0) (?len - ?s))" by linarith
  then show ?thesis
    unfolding splice_def Let_def by (rule currentImageCount_take_drop)
qed

lemma addAttachment_count:
  "currentImageCount (attachments m) \<le> 8 \<Longrightarrow>
   currentImageCount (attachments (fst (addAttachment sniff compress ty f m))) \<le> 8"
  by (cases ty)
    (auto simp add: addAttachment_file addAttachment_image push_def fileAttachment_def
      currentImageCount_append MAX_IMAGES_def)

lemma imageInputChange_count:
  "currentImageCount (attachments m) \<le> 8 \<Longrightarrow>
   currentImageCount (attachments (fst (imageInputChange sniff compress fs m))) \<le> 8"
proof (induction fs arbitrary: m)
  case Nil
  then show ?case by simp
next
  case (Cons f fs)
  show ?case
  proof (cases "startsWith (file_type f) ''image/''")
    case True
    let ?m1 = "fst (addAttachment sniff compress ImageUpload f m)"
    have "currentImageCount (attachments ?m1) \<le> 8"
      using Cons.prems by (rule addAttachment_count)
    then have "currentImageCount
        (attachments (fst (imageInputChange sniff compress fs ?m1))) \<le> 8"
      by (rule Cons.IH)
    with True show ?thesis by (simp add: split_beta)
  next
    case False
    with Cons show ?thesis by simp
  qed
qed

lemma fileInputChange_count:
  "currentImageCount (attachments m) \<le> 8 \<Longrightarrow>
   currentImageCount (attachments (fst (fileInputChange sniff compress fs m))) \<le> 8"
proof (induction fs arbitrary: m)
  case Nil
  then show ?case by simp
next
  case (Cons f fs)
  let ?m1 = "fst (addAttachment sniff compress FileUpload f m)"
  have "currentImageCount (attachments ?m1) \<le> 8"
    using Cons.prems by (rule addAttachment_count)
  then have "currentImageCount
      (attachments (fst (fileInputChange sniff compress fs ?m1))) \<le> 8"
    by (rule Cons.IH)
  then show ?case by (simp add: split_beta)
qed

lemma exec_count:
  "currentImageCount (attachments m) \<le> 8 \<Longrightarrow>
   currentImageCount (attachments (exec sniff compress c m)) \<le> 8"
proof (cases c)
  case (RemoveAttachment i)
  assume "currentImageCount (attachments m) \<le> 8"
  then show ?thesis
    using currentImageCount_splice [of i "attachments m"] RemoveAttachment
    by (simp add: removeAttachment_def)
qed (auto simp add: addAttachment_count imageInputChange_count fileInputChange_count
    addYoutubeLink_def addWikipediaLink_def showYoutubeModal_def showWikipediaModal_def
    clearAttachments_def push_def linkAttachment_def currentImageCount_append
    currentImageCount_Nil split: option.splits)

lemma run_count:
  "currentImageCount (attachments m) \<le> 8 \<Longrightarrow>
   currentImageCount (attachments (run sniff compress cs m)) \<le> 8"
  by (induction cs arbitrary: m) (auto simp add: exec_count)

text \<open>
  The two halves of the image path, run one right after the other, are the image path of
  \<open>addAttachment\<close>.
\<close>

lemma addAttachment_image_halves:
  "addAttachment sniff compress ImageUpload f m =
     (case beginImage compress f m of
        Inl r \<Rightarrow> (m, [Alert r])
      | Inr (processedFile, evs) \<Rightarrow> (finishImage f processedFile m, evs))"
  by (simp add: addAttachment_image beginImage_def finishImage_def split_beta)

text \<open>
  Two calls that overlap are outside what \<open>run\<close> describes: with seven images in the
  Store, two image candidates both pass the count check before either is pushed, and
  the Store holds nine images when both have been pushed.
\<close>

lemma overlapping_adds_nine_images:
  "beginImage compressThrows (pngFile ''q.png'' pngMagic) sevenImages =
     Inr (pngFile ''q.png'' pngMagic, [CompressorInvoked]) \<and>
   beginImage compressThrows (pngFile ''r.png'' pngMagic) sevenImages =
     Inr (pngFile ''r.png'' pngMagic, [CompressorInvoked]) \<and>
   currentImageCount (attachments
     (finishImage (pngFile ''r.png'' pngMagic) (pngFile ''r.png'' pngMagic)
       (finishImage (pngFile ''q.png'' pngMagic) (pngFile ''q.png'' pngMagic) sevenImages))) = 9"
  by (simp add: beginImage_def finishImage_def processFile_def push_def sevenImages_def
      withAttachments_def initial_def currentImageCount_def fileAttachment_def
      compressThrows_def pngFile_def pngMagic_def SUPPORTED_TYPES_def file_size_def
      MAX_SIZE_BYTES_def MAX_IMAGES_def startsWith_def)

text \<open>
  Claim C3, as amended. When the operations run one at a time, each to its end before
  the next one starts, the Store never holds more than 8 image attachments: from a Store
  with at most 8 images, every such sequence of operations leads to a Store with at most
  8 images. When 8 images are present, a further image candidate is rejected and the
  manager is left as it was; the reason is the count limit when the candidate has a
  supported type and at most 10 MiB, and otherwise the reason of the format or size
  check, which come first. Nothing is stated about image adds that overlap.
\<close>

theorem C3_at_most_eight_images:
  assumes "currentImageCount (attachments m) \<le> 8"
  shows "currentImageCount (attachments (run sniff compress cs m)) \<le> 8 \<and>
         (currentImageCount (attachments m) = 8 \<longrightarrow>
            addAttachment sniff compress ImageUpload f m =
              (m, [Alert (if file_type f \<notin> set SUPPORTED_TYPES then UnsupportedImageFormat
                          else if file_size f > MAX_SIZE_BYTES then ImageTooLarge
                          else MaxImagesReached)]))"
  using assms run_count [of m sniff compress cs]
  by (simp add: addAttachment_image MAX_IMAGES_def)

text \<open>
  With eight images in the Store, a ninth PNG gets the count alert, and the Store still
  holds eight images after the attempt.
\<close>

theorem C3_at_most_eight_images_witness:
  "currentImageCount (attachments eightImages) = 8 \<and>
   currentImageCount (attachments (run sniffMagic compressHalf
      [AddAttachment ImageUpload (pngFile ''q.png'' pngMagic)] eightImages)) \<le> 8 \<and>
   addAttachment sniffMagic compressHalf ImageUpload (pngFile ''q.png'' pngMagic) eightImages =
     (eightImages, [Alert MaxImagesReached])"
proof -
  have h: "currentImageCount (attachments eightImages) = 8"
    by (simp add: eightImages_def withAttachments_def currentImageCount_def
        fileAttachment_def)
  then have le: "currentImageCount (attachments eightImages) \<le> 8"
    by simp
  show ?thesis
    using h C3_at_most_eight_images [OF le, of sniffMagic compressHalf
        "[AddAttachment ImageUpload (pngFile ''q.png'' pngMagic)]"
        "pngFile ''q.png'' pngMagic"]
    by (simp add: pngFile_def pngMagic_def SUPPORTED_TYPES_def file_size_def
        MAX_SIZE_BYTES_def)
qed

text \<open>
  Claim C3 as stated fails for a candidate that an earlier check rejects: with eight
  images present, an image of the declared type \<^verbatim>\<open>image/bmp\<close> is rejected for its format,
  not for the count.
\<close>

theorem C3_format_first_counterexample:
  "currentImageCount (attachments eightImages) = 8 \<and>
   addAttachment sniffMagic compressHalf ImageUpload
       \<lparr>file_name = ''scan.bmp'', file_type = ''image/bmp'', file_bytes = [0x42, 0x4D]\<rparr>
       eightImages =
     (eightImages, [Alert UnsupportedImageFormat])"
  by (simp add: addAttachment_image SUPPORTED_TYPES_def eightImages_def withAttachments_def
      currentImageCount_def fileAttachment_def)

subsection \<open>The aggregate size of the files\<close>

lemma currentTotalSize_Nil: "currentTotalSize [] = 0"
  by (simp add: currentTotalSize_def)

lemma currentTotalSize_append:
  "currentTotalSize (atts @ [a]) =
     currentTotalSize atts +
     (if att_type a = TextFile
      then (case att_file a of None \<Rightarrow> 0 | Some g \<Rightarrow> file_size g) else 0)"
  by (simp add: currentTotalSize_def)

lemma currentTotalSize_push_file:
  "currentTotalSize (attachments (push (fileAttachment TextFile f n) m)) =
     currentTotalSize (attachments m) + file_size f"
  by (simp add: push_def fileAttachment_def currentTotalSize_append)

text \<open>
  Claim C4, as amended. For every file candidate, if the sizes of the file attachments
  in the Store plus the candidate's size exceed 10 MiB, \<^verbatim>\<open>addAttachment\<close> rejects it and
  leaves the manager as it was; the reason is a size reason when the candidate passes the
  extension, sniffing and MIME checks, and the reason of the first of those checks that
  fails otherwise. Only file attachments enter the sum: appending an image or a link
  leaves it as it is. Four files of 3 MiB that pass those checks, submitted one after
  the other to an empty Store: the first three are accepted and the fourth is rejected
  for the total size.
\<close>

theorem C4_total_file_size:
  "(currentTotalSize (attachments m) + file_size f > MAX_TOTAL_FILE_SIZE_BYTES \<longrightarrow>
      addAttachment sniff compress FileUpload f m =
        (m, [Alert (if passesFileChecks sniff f
                      then (if file_size f > MAX_FILE_SIZE_BYTES then FileTooLarge
                            else TotalFileSizeExceeded)
                    else if \<not> isSupportedTextFile (getFileExtension (file_name f))
                      then UnsupportedFileType
                    else if sniff f \<noteq> None then BinaryContentDetected
                    else BinaryMimeType)])) \<and>
   currentTotalSize [] = 0 \<and>
   currentTotalSize (atts @ [a]) =
     currentTotalSize atts +
     (if att_type a = TextFile
      then (case att_file a of None \<Rightarrow> 0 | Some g \<Rightarrow> file_size g) else 0) \<and>
   (attachments m = [] \<and>
    (\<forall>g \<in> set [f1, f2, f3, f4]. passesFileChecks sniff g \<and> file_size g = 3 * 1024 * 1024) \<longrightarrow>
      fileInputChange sniff compress [f1, f2, f3, f4] m =
        (m\<lparr>attachments :=
             [fileAttachment TextFile f1 (file_name f1),
              fileAttachment TextFile f2 (file_name f2),
              fileAttachment TextFile f3 (file_name f3)]\<rparr>,
         [Alert TotalFileSizeExceeded]))"
proof -
  have reject: "currentTotalSize (attachments m) + file_size f > MAX_TOTAL_FILE_SIZE_BYTES \<Longrightarrow>
      addAttachment sniff compress FileUpload f m =
        (m, [Alert (if passesFileChecks sniff f
                      then (if file_size f > MAX_FILE_SIZE_BYTES then FileTooLarge
                            else TotalFileSizeExceeded)
                    else if \<not> isSupportedTextFile (getFileExtension (file_name f))
                      then UnsupportedFileType
                    else if sniff f \<noteq> None then BinaryContentDetected
                    else BinaryMimeType)])"
    by (auto simp add: addAttachment_file passesFileChecks_def)
  have four: "fileInputChange sniff compress [f1, f2, f3, f4] m =
        (m\<lparr>attachments :=
             [fileAttachment TextFile f1 (file_name f1),
              fileAttachment TextFile f2 (file_name f2),
              fileAttachment TextFile f3 (file_name f3)]\<rparr>,
         [Alert TotalFileSizeExceeded])"
    if empty: "attachments m = []"
      and p: "passesFileChecks sniff f1" "passesFileChecks sniff f2"
        "passesFileChecks sniff f3" "passesFileChecks sniff f4"
      and s: "file_size f1 = 3145728" "file_size f2 = 3145728"
        "file_size f3 = 3145728" "file_size f4 = 3145728"
  proof -
    let ?a1 = "fileAttachment TextFile f1 (file_name f1)"
    let ?a2 = "fileAttachment TextFile f2 (file_name f2)"
    let ?a3 = "fileAttachment TextFile f3 (file_name f3)"
    let ?m1 = "push ?a1 m"
    let ?m2 = "push ?a2 ?m1"
    let ?m3 = "push ?a3 ?m2"
    have t0: "currentTotalSize (attachments m) = 0"
      using empty by (simp add: currentTotalSize_Nil)
    have t1: "currentTotalSize (attachments ?m1) = 3145728"
      using t0 s by (simp add: currentTotalSize_push_file)
    have t2: "currentTotalSize (attachments ?m2) = 6291456"
      using t1 s by (simp add: currentTotalSize_push_file)
    have t3: "currentTotalSize (attachments ?m3) = 9437184"
      using t2 s by (simp add: currentTotalSize_push_file)
    have a1: "addAttachment sniff compress FileUpload f1 m = (?m1, [])"
      using p s t0
      by (simp add: addAttachment_file passesFileChecks_def MAX_FILE_SIZE_BYTES_def
          MAX_TOTAL_FILE_SIZE_BYTES_def)
    have a2: "addAttachment sniff compress FileUpload f2 ?m1 = (?m2, [])"
      using p s t1
      by (simp add: addAttachment_file passesFileChecks_def MAX_FILE_SIZE_BYTES_def
          MAX_TOTAL_FILE_SIZE_BYTES_def)
    have a3: "addAttachment sniff compress FileUpload f3 ?m2 = (?m3, [])"
      using p s t2
      by (simp add: addAttachment_file passesFileChecks_def MAX_FILE_SIZE_BYTES_def
          MAX_TOTAL_FILE_SIZE_BYTES_def)
    have a4: "addAttachment sniff compress FileUpload f4 ?m3 =
        (?m3, [Alert TotalFileSizeExceeded])"
      using p s t3
      by (simp add: addAttachment_file passesFileChecks_def MAX_FILE_SIZE_BYTES_def
          MAX_TOTAL_FILE_SIZE_BYTES_def)
    have "fileInputChange sniff compress [f1, f2, f3, f4] m =
        (?m3, [Alert TotalFileSizeExceeded])"
      by (simp add: a1 a2 a3 a4)
    moreover have "?m3 = m\<lparr>attachments := [?a1, ?a2, ?a3]\<rparr>"
      using empty by (simp add: push_def)
    ultimately show ?thesis by simp
  qed
  show ?thesis
    using reject four
    by (simp add: currentTotalSize_Nil currentTotalSize_append)
qed

text \<open>
  Four text files of 3 MiB, submitted to the empty Store: three are stored, and the
  fourth, alone against that Store, gets the total-size alert.
\<close>

theorem C4_total_file_size_witness:
  "fileInputChange sniffMagic compressThrows
       [mib3 ''a.txt'', mib3 ''b.txt'', mib3 ''c.txt'', mib3 ''d.txt''] initial =
     (withAttachments
        [fileAttachment TextFile (mib3 ''a.txt'') ''a.txt'',
         fileAttachment TextFile (mib3 ''b.txt'') ''b.txt'',
         fileAttachment TextFile (mib3 ''c.txt'') ''c.txt''],
      [Alert TotalFileSizeExceeded]) \<and>
   addAttachment sniffMagic compressThrows FileUpload (mib3 ''d.txt'')
       (withAttachments
          [fileAttachment TextFile (mib3 ''a.txt'') ''a.txt'',
           fileAttachment TextFile (mib3 ''b.txt'') ''b.txt'',
           fileAttachment TextFile (mib3 ''c.txt'') ''c.txt'']) =
     (withAttachments
        [fileAttachment TextFile (mib3 ''a.txt'') ''a.txt'',
         fileAttachment TextFile (mib3 ''b.txt'') ''b.txt'',
         fileAttachment TextFile (mib3 ''c.txt'') ''c.txt''],
      [Alert TotalFileSizeExceeded])"
proof -
  let ?three = "withAttachments
        [fileAttachment TextFile (mib3 ''a.txt'') ''a.txt'',
         fileAttachment TextFile (mib3 ''b.txt'') ''b.txt'',
         fileAttachment TextFile (mib3 ''c.txt'') ''c.txt'']"
  have p: "passesFileChecks sniffMagic (mib3 ''a.txt'')"
    "passesFileChecks sniffMagic (mib3 ''b.txt'')"
    "passesFileChecks sniffMagic (mib3 ''c.txt'')"
    "passesFileChecks sniffMagic (mib3 ''d.txt'')"
    by (simp_all add: passesFileChecks_def mib3_def helper_defs sample_defs)
  have s: "file_size (mib3 n) = 3145728" for n
    by (simp add: mib3_def textFile_def file_size_def)
  have e: "attachments initial = []"
    by (simp add: initial_def)
  have total: "currentTotalSize (attachments ?three) + file_size (mib3 ''d.txt'') >
      MAX_TOTAL_FILE_SIZE_BYTES"
    by (simp add: withAttachments_def currentTotalSize_def fileAttachment_def s
        MAX_TOTAL_FILE_SIZE_BYTES_def)
  have small: "\<not> file_size (mib3 ''d.txt'') > MAX_FILE_SIZE_BYTES"
    by (simp add: s MAX_FILE_SIZE_BYTES_def)
  show ?thesis
    using C4_total_file_size [of initial "mib3 ''d.txt''" sniffMagic compressThrows
        "[]" "linkAttachment Youtube ''u''"
        "mib3 ''a.txt''" "mib3 ''b.txt''" "mib3 ''c.txt''" "mib3 ''d.txt''"]
      C4_total_file_size [of ?three "mib3 ''d.txt''" sniffMagic compressThrows
        "[]" "linkAttachment Youtube ''u''"
        "mib3 ''a.txt''" "mib3 ''b.txt''" "mib3 ''c.txt''" "mib3 ''d.txt''"]
      p s e total small
    by (simp add: withAttachments_def mib3_def textFile_def)
qed

text \<open>
  Claim C4 as stated fails for a candidate that an earlier check rejects: with a file of
  8 MiB in the Store, a file of 3 MiB named \<^verbatim>\<open>paper.pdf\<close> takes the sum over 10 MiB and is
  rejected for its extension, which is no size reason.
\<close>

theorem C4_extension_first_counterexample:
  "currentTotalSize (attachments (withAttachments
       [fileAttachment TextFile (textFile ''a.txt'' (replicate 8388608 0x61)) ''a.txt''])) +
     file_size \<lparr>file_name = ''paper.pdf'', file_type = ''application/pdf'',
                file_bytes = replicate 3145728 0\<rparr> > MAX_TOTAL_FILE_SIZE_BYTES \<and>
   addAttachment sniffMagic compressThrows FileUpload
       \<lparr>file_name = ''paper.pdf'', file_type = ''application/pdf'',
        file_bytes = replicate 3145728 0\<rparr>
       (withAttachments
          [fileAttachment TextFile (textFile ''a.txt'' (replicate 8388608 0x61)) ''a.txt'']) =
     (withAttachments
        [fileAttachment TextFile (textFile ''a.txt'' (replicate 8388608 0x61)) ''a.txt''],
      [Alert UnsupportedFileType]) \<and>
   \<not> sizeReason UnsupportedFileType"
  by (simp add: addAttachment_file helper_defs withAttachments_def currentTotalSize_def
      fileAttachment_def textFile_def sizeReason_def)

subsection \<open>The fields of the stored records\<close>

lemma unset_file: "derivedFieldsUnset (fileAttachment ty g n)"
  by (simp add: derivedFieldsUnset_def fileAttachment_def)

lemma unset_link: "derivedFieldsUnset (linkAttachment ty url)"
  by (simp add: derivedFieldsUnset_def linkAttachment_def)

lemma set_splice: "set (splice i d xs) \<subseteq> set xs"
proof -
  have "set (take a xs @ drop b xs) \<subseteq> set xs" for a b
    using set_take_subset [of a xs] set_drop_subset [of b xs] by auto
  then show ?thesis by (simp only: splice_def Let_def)
qed

lemma addAttachment_unset:
  "list_all derivedFieldsUnset (attachments m) \<Longrightarrow>
   list_all derivedFieldsUnset (attachments (fst (addAttachment sniff compress ty f m)))"
  by (cases ty)
    (auto simp add: addAttachment_file addAttachment_image push_def unset_file)

lemma imageInputChange_unset:
  "list_all derivedFieldsUnset (attachments m) \<Longrightarrow>
   list_all derivedFieldsUnset (attachments (fst (imageInputChange sniff compress fs m)))"
proof (induction fs arbitrary: m)
  case Nil
  then show ?case by simp
next
  case (Cons f fs)
  show ?case
  proof (cases "startsWith (file_type f) ''image/''")
    case True
    let ?m1 = "fst (addAttachment sniff compress ImageUpload f m)"
    have "list_all derivedFieldsUnset (attachments ?m1)"
      using Cons.prems by (rule addAttachment_unset)
    then have "list_all derivedFieldsUnset
        (attachments (fst (imageInputChange sniff compress fs ?m1)))"
      by (rule Cons.IH)
    with True show ?thesis by (simp add: split_beta)
  next
    case False
    with Cons show ?thesis by simp
  qed
qed

lemma fileInputChange_unset:
  "list_all derivedFieldsUnset (attachments m) \<Longrightarrow>
   list_all derivedFieldsUnset (attachments (fst (fileInputChange sniff compress fs m)))"
proof (induction fs arbitrary: m)
  case Nil
  then show ?case by simp
next
  case (Cons f fs)
  let ?m1 = "fst (addAttachment sniff compress FileUpload f m)"
  have "list_all derivedFieldsUnset (attachments ?m1)"
    using Cons.prems by (rule addAttachment_unset)
  then have "list_all derivedFieldsUnset
      (attachments (fst (fileInputChange sniff compress fs ?m1)))"
    by (rule Cons.IH)
  then show ?case by (simp add: split_beta)
qed

lemma exec_unset:
  "list_all derivedFieldsUnset (attachments m) \<Longrightarrow>
   list_all derivedFieldsUnset (attachments (exec sniff compress c m))"
proof (cases c)
  case (RemoveAttachment i)
  assume "list_all derivedFieldsUnset (attachments m)"
  then show ?thesis
    using set_splice [of i 1 "attachments m"] RemoveAttachment
    by (auto simp add: removeAttachment_def list_all_iff)
qed (auto simp add: addAttachment_unset imageInputChange_unset fileInputChange_unset
    addYoutubeLink_def addWikipediaLink_def showYoutubeModal_def showWikipediaModal_def
    clearAttachments_def push_def unset_link split: option.splits)

lemma run_unset:
  "list_all derivedFieldsUnset (attachments m) \<Longrightarrow>
   list_all derivedFieldsUnset (attachments (run sniff compress cs m))"
  by (induction cs arbitrary: m) (auto simp add: exec_unset)

text \<open>
  Claim C9, as amended. Every text-file record committed to the Store holds the
  candidate's file itself, whose size is the candidate's original byte size and whose
  name has a lowercase extension of the allow-list, together with the file's name; its
  \<^verbatim>\<open>sizeBytes\<close>, \<^verbatim>\<open>extension\<close> and \<^verbatim>\<open>textContent\<close> fields are not set. No operation sets
  these fields, so in every Store reached from the initial one no record of any kind
  carries an extension.
\<close>

theorem C9_file_record_fields:
  "(attachments (fst (addAttachment sniff compress FileUpload f m)) \<noteq> attachments m \<longrightarrow>
      attachments (fst (addAttachment sniff compress FileUpload f m)) =
        attachments m @
          [\<lparr>att_type = TextFile, att_file = Some f, att_url = None,
            att_name = Some (file_name f), textContent = None, extension = None,
            sizeBytes = None\<rparr>] \<and>
      isSupportedTextFile (getFileExtension (file_name f))) \<and>
   list_all (\<lambda>a. textContent a = None \<and> extension a = None \<and> sizeBytes a = None)
     (attachments (run sniff compress cs initial))"
proof -
  have "list_all derivedFieldsUnset (attachments initial)"
    by (simp add: initial_def)
  then have "list_all derivedFieldsUnset (attachments (run sniff compress cs initial))"
    by (rule run_unset)
  then have "list_all (\<lambda>a. textContent a = None \<and> extension a = None \<and> sizeBytes a = None)
     (attachments (run sniff compress cs initial))"
    by (simp add: derivedFieldsUnset_def [abs_def])
  then show ?thesis
    by (auto simp add: addAttachment_file push_def fileAttachment_def)
qed

text \<open>
  A text file of three bytes is committed to the initial Store: the record holds the
  file and its name, and the Store reached by that command has no derived field set.
\<close>

theorem C9_file_record_fields_witness:
  "attachments (fst (addAttachment sniffMagic compressThrows FileUpload
       (textFile ''notes.txt'' [0x61, 0x62, 0x63]) initial)) =
     [\<lparr>att_type = TextFile, att_file = Some (textFile ''notes.txt'' [0x61, 0x62, 0x63]),
       att_url = None, att_name = Some ''notes.txt'', textContent = None,
       extension = None, sizeBytes = None\<rparr>] \<and>
   list_all (\<lambda>a. textContent a = None \<and> extension a = None \<and> sizeBytes a = None)
     (attachments (run sniffMagic compressThrows
        [AddAttachment FileUpload (textFile ''notes.txt'' [0x61, 0x62, 0x63])] initial))"
proof -
  let ?f = "textFile ''notes.txt'' [0x61, 0x62, 0x63]"
  have grown: "attachments (fst (addAttachment sniffMagic compressThrows FileUpload ?f initial))
      \<noteq> attachments initial"
    by (simp add: addAttachment_file push_def currentTotalSize_def helper_defs sample_defs)
  show ?thesis
    using grown
      C9_file_record_fields [of sniffMagic compressThrows ?f initial
        "[AddAttachment FileUpload ?f]"]
    by (simp add: initial_def textFile_def)
qed

text \<open>
  Claim C9 as stated fails: the record committed for a text file of three bytes named
  \<^verbatim>\<open>notes.txt\<close> has neither \<^verbatim>\<open>sizeBytes\<close> nor \<^verbatim>\<open>extension\<close>.
\<close>

theorem C9_fields_unset_counterexample:
  "map sizeBytes (attachments (fst (addAttachment sniffMagic compressThrows FileUpload
       (textFile ''notes.txt'' [0x61, 0x62, 0x63]) initial))) = [None] \<and>
   map extension (attachments (fst (addAttachment sniffMagic compressThrows FileUpload
       (textFile ''notes.txt'' [0x61, 0x62, 0x63]) initial))) = [None] \<and>
   file_size (textFile ''notes.txt'' [0x61, 0x62, 0x63]) = 3 \<and>
   getFileExtension (file_name (textFile ''notes.txt'' [0x61, 0x62, 0x63])) = ''txt''"
  by (simp add: addAttachment_file push_def fileAttachment_def currentTotalSize_def
      helper_defs sample_defs)

end
